theory Spec2Isabelle
  imports Complex_Main "HOL-Library.Multiset"
begin

section \<open>Data model of the renderer\<close>

text \<open>
  The renderer is Python 2. Its floats are modelled as \<open>real\<close> (no rounding, no overflow),
  its integers as \<open>int\<close>. An exception is a value of type \<open>error\<close>; a function that can
  raise returns \<open>error + 'a\<close>, with \<open>Inl\<close> for the exception.
\<close>

datatype error = IndexError | TypeError | ValueError | ZeroDivisionError | IOError

type_synonym colour = "int \<times> int \<times> int"
type_synonym vec3 = "real \<times> real \<times> real"
type_synonym point = "int \<times> int"
type_synonym edge = "int \<times> int"

text \<open>
  A facet is a Python sequence whose elements are vertex indices and, once
  \<open>colorize_facets\<close> has run, one colour tuple appended at the end.
\<close>

datatype elem = Idx int | Colour colour

type_synonym facet = "elem list"

record scene =
  width :: int
  height :: int
  centre_x :: int
  centre_y :: int
  camera_position :: "int \<times> int \<times> int"
  camera_rotation :: vec3
  camera_distortion :: int
  light_source :: vec3
  rotating :: bool
  point_colour :: colour
  line_colour :: colour
  facet_colour :: colour
  filled :: bool
  vertices :: "real list list"
  facets :: "facet list"
  edges :: "edge list"

text \<open>\<open>Scene.__init__\<close> (renderer.py 58-97); the surface and the font are the canvas's.\<close>

definition cube_vertices :: "real list list" where
  "cube_vertices =
     [[-1, -1, 1], [-1, 1, 1], [1, 1, 1], [1, -1, 1],
      [-1, -1, -1], [-1, 1, -1], [1, 1, -1], [1, -1, -1]]"

definition cube_facets :: "int list list" where
  "cube_facets =
     [[0, 1, 2], [2, 3, 0], [1, 5, 6], [6, 2, 1],
      [5, 4, 7], [7, 6, 5], [4, 0, 3], [3, 7, 4],
      [3, 2, 6], [6, 7, 3], [0, 5, 1], [0, 4, 5]]"

definition cube_edges :: "edge list" where
  "cube_edges =
     [(0, 1), (1, 2), (2, 3), (3, 0), (4, 5), (5, 6), (6, 7), (7, 4),
      (0, 4), (1, 5), (2, 6), (3, 7)]"

definition Scene_init :: "int \<Rightarrow> int \<Rightarrow> scene" where
  "Scene_init w h =
     \<lparr> width = w, height = h, centre_x = w div 2, centre_y = h div 2,
       camera_position = (0, 0, -10), camera_rotation = (0, 0, 0),
       camera_distortion = 512, light_source = (7 / 10, 7 / 10, - (7 / 10)),
       rotating = False,
       point_colour = (0, 0, 0), line_colour = (50, 50, 50),
       facet_colour = (100, 255, 100), filled = False,
       vertices = cube_vertices, facets = map (map Idx) cube_facets,
       edges = cube_edges \<rparr>"

definition WIDTH :: int where "WIDTH = 800"
definition HEIGHT :: int where "HEIGHT = 600"

section \<open>Python helpers\<close>

definition ebind :: "error + 'a \<Rightarrow> ('a \<Rightarrow> error + 'b) \<Rightarrow> error + 'b" where
  "ebind m f = (case m of Inl e \<Rightarrow> Inl e | Inr x \<Rightarrow> f x)"

text \<open>A comprehension or loop whose body can raise: the first failure, in order, wins.\<close>

fun sequence_err :: "(error + 'a) list \<Rightarrow> error + 'a list" where
  "sequence_err [] = Inr []"
| "sequence_err (x # xs) =
     (case x of Inl e \<Rightarrow> Inl e
      | Inr v \<Rightarrow> (case sequence_err xs of Inl e \<Rightarrow> Inl e | Inr vs \<Rightarrow> Inr (v # vs)))"

text \<open>\<open>xs[i]\<close>: a negative index counts from the end, out of range raises.\<close>

definition py_index :: "'a list \<Rightarrow> int \<Rightarrow> error + 'a" where
  "py_index xs i =
     (if 0 \<le> i \<and> i < int (length xs) then Inr (xs ! nat i)
      else if i < 0 \<and> - int (length xs) \<le> i then Inr (xs ! nat (int (length xs) + i))
      else Inl IndexError)"

text \<open>\<open>int(x)\<close> of a float truncates towards zero.\<close>

definition py_int_of_float :: "real \<Rightarrow> int" where
  "py_int_of_float x = (if 0 \<le> x then \<lfloor>x\<rfloor> else \<lceil>x\<rceil>)"

definition is_space :: "char \<Rightarrow> bool" where
  "is_space c = (c \<in> set [CHR '' '', CHR 0x09, CHR 0x0A, CHR 0x0B, CHR 0x0C, CHR 0x0D])"

text \<open>\<open>s.split()\<close>: the maximal runs of non-whitespace characters.\<close>

fun split_from :: "string \<Rightarrow> string \<Rightarrow> string list" where
  "split_from cur [] = (if cur = [] then [] else [cur])"
| "split_from cur (c # cs) =
     (if is_space c then (if cur = [] then split_from [] cs else cur # split_from [] cs)
      else split_from (cur @ [c]) cs)"

definition py_split :: "string \<Rightarrow> string list" where
  "py_split s = split_from [] s"

definition startswith :: "string \<Rightarrow> string \<Rightarrow> bool" where
  "startswith s p = (take (length p) s = p)"

text \<open>\<open>x.split("/")[0]\<close>: the part of \<open>x\<close> before its first slash.\<close>

definition before_slash :: "string \<Rightarrow> string" where
  "before_slash x = takeWhile (\<lambda>c. c \<noteq> CHR ''/'') x"

section \<open>Mesh loader (objreader.py)\<close>

text \<open>
  The builtins \<open>float\<close> and \<open>int\<close> on strings are parameters \<open>float_of\<close> and \<open>int_of\<close>:
  \<open>None\<close> where the builtin raises ValueError.
\<close>

definition parse_vertex ::
  "(string \<Rightarrow> real option) \<Rightarrow> string \<Rightarrow> real list list \<Rightarrow> error + real list list" where
  "parse_vertex float_of line vs =
     (case those (map float_of (drop 1 (py_split line))) of
        None \<Rightarrow> Inl ValueError
      | Some vertex \<Rightarrow> Inr (vs @ [vertex]))"

definition parse_facet ::
  "(string \<Rightarrow> int option) \<Rightarrow> string \<Rightarrow> int list list \<Rightarrow> error + int list list" where
  "parse_facet int_of line fs =
     (case those (map (\<lambda>x. int_of (before_slash x)) (drop 1 (py_split line))) of
        None \<Rightarrow> Inl ValueError
      | Some ns \<Rightarrow> Inr (fs @ [map (\<lambda>n. n - 1) ns]))"

definition sorted2 :: "int \<Rightarrow> int \<Rightarrow> edge" where
  "sorted2 a b = (if b < a then (b, a) else (a, b))"

definition add_edge :: "edge \<Rightarrow> edge list \<Rightarrow> edge list" where
  "add_edge e es = (if e \<notin> set es then es @ [e] else es)"

text \<open>The loop of \<open>convert_facets_to_edges\<close> (objreader.py 27-37), \<open>es\<close> the edges so far.\<close>

fun convert_loop :: "int list list \<Rightarrow> edge list \<Rightarrow> error + edge list" where
  "convert_loop [] es = Inr es"
| "convert_loop (facet # rest) es =
     (if length facet < 3 then Inl IndexError
      else
        let edge1 = sorted2 (facet ! 0) (facet ! 1);
            edge2 = sorted2 (facet ! 1) (facet ! 2);
            edge3 = sorted2 (facet ! 0) (facet ! 2)
        in convert_loop rest (add_edge edge3 (add_edge edge2 (add_edge edge1 es))))"

definition convert_facets_to_edges :: "int list list \<Rightarrow> error + edge list" where
  "convert_facets_to_edges fs = convert_loop fs []"

fun read_lines ::
  "(string \<Rightarrow> real option) \<Rightarrow> (string \<Rightarrow> int option) \<Rightarrow> string list \<Rightarrow>
   real list list \<Rightarrow> int list list \<Rightarrow> error + (real list list \<times> int list list)" where
  "read_lines float_of int_of [] vs fs = Inr (vs, fs)"
| "read_lines float_of int_of (line # rest) vs fs =
     (if startswith line ''v '' then
        (case parse_vertex float_of line vs of
           Inl e \<Rightarrow> Inl e
         | Inr vs' \<Rightarrow> read_lines float_of int_of rest vs' fs)
      else if startswith line ''f '' then
        (case parse_facet int_of line fs of
           Inl e \<Rightarrow> Inl e
         | Inr fs' \<Rightarrow> read_lines float_of int_of rest vs fs')
      else read_lines float_of int_of rest vs fs)"

text \<open>\<open>read\<close> (objreader.py 42-58); the file is its lines, or \<open>None\<close> when it cannot be opened.\<close>

definition read ::
  "(string \<Rightarrow> real option) \<Rightarrow> (string \<Rightarrow> int option) \<Rightarrow> string list option \<Rightarrow>
   error + (real list list \<times> int list list \<times> edge list)" where
  "read float_of int_of file =
     (case file of
        None \<Rightarrow> Inl IOError
      | Some lines \<Rightarrow>
          ebind (read_lines float_of int_of lines [] [])
            (\<lambda>(vs, fs). ebind (convert_facets_to_edges fs) (\<lambda>es. Inr (vs, fs, es))))"

text \<open>
  A malformed line, in the spec's sense: a vertex line with a field that \<open>float\<close> rejects,
  or a facet line with an index field that \<open>int\<close> rejects.
\<close>

definition malformed_line ::
  "(string \<Rightarrow> real option) \<Rightarrow> (string \<Rightarrow> int option) \<Rightarrow> string \<Rightarrow> bool" where
  "malformed_line float_of int_of line =
     (if startswith line ''v ''
      then list_ex (\<lambda>x. float_of x = None) (drop 1 (py_split line))
      else startswith line ''f ''
        \<and> list_ex (\<lambda>x. int_of (before_slash x) = None) (drop 1 (py_split line)))"

text \<open>
  The first-seen characterisation of the spec: the three sorted pairs of every facet, in
  order, each kept at its first occurrence only.
\<close>

definition facet_edges :: "int list \<Rightarrow> edge list" where
  "facet_edges f =
     [sorted2 (f ! 0) (f ! 1), sorted2 (f ! 1) (f ! 2), sorted2 (f ! 0) (f ! 2)]"

definition first_seen :: "'a list \<Rightarrow> 'a list" where
  "first_seen xs = rev (remdups (rev xs))"

section \<open>Transformer (renderer.py 166-203)\<close>

text \<open>The three rotation steps of lines 172-182, \<open>tmp\<close> holding the coordinate overwritten.\<close>

definition rotate :: "vec3 \<Rightarrow> vec3 \<Rightarrow> vec3" where
  "rotate r v =
     (case r of (r0, r1, r2) \<Rightarrow> case v of (x, y, z) \<Rightarrow>
        let tmp = z;
            z1 = - x * sin r0 - z * cos r0;
            x1 = - x * cos r0 + tmp * sin r0;
            tmp = z1;
            z2 = - y * sin r1 + z1 * cos r1;
            y1 = y * cos r1 + tmp * sin r1;
            tmp = x1;
            x2 = x1 * cos r2 - y1 * sin r2;
            y2 = y1 * cos r2 + tmp * sin r2
        in (x2, y2, z2))"

definition translate :: "int \<times> int \<times> int \<Rightarrow> vec3 \<Rightarrow> vec3" where
  "translate p v =
     (case p of (px, py, pz) \<Rightarrow> case v of (x, y, z) \<Rightarrow>
        (x - real_of_int px, y - real_of_int py, z - real_of_int pz))"

definition guard_depth :: "real \<Rightarrow> real" where
  "guard_depth z = (if z = 0 then 1 / 100000 else z)"

definition transform_vertex :: "scene \<Rightarrow> vec3 \<Rightarrow> point \<times> real" where
  "transform_vertex s v =
     (case translate (camera_position s) (rotate (camera_rotation s) v) of (x, y, z0) \<Rightarrow>
        let z = guard_depth z0;
            screen_x = real_of_int (camera_distortion s) * x / z + real_of_int (centre_x s);
            screen_y = real_of_int (camera_distortion s) * y / z + real_of_int (centre_y s)
        in ((py_int_of_float screen_x, py_int_of_float screen_y), z))"

text \<open>
  The rotation as the spec words it: the X rotation turns (y, z) and leaves x, the Y rotation
  turns (z, x) and leaves y, the Z rotation turns (x, y) and leaves z, each by the standard
  2D rotation, in the order X, Y, Z.
\<close>

definition rot2 :: "real \<Rightarrow> real \<times> real \<Rightarrow> real \<times> real" where
  "rot2 r p = (case p of (u, v) \<Rightarrow> (u * cos r - v * sin r, u * sin r + v * cos r))"

definition spec_rot_x :: "real \<Rightarrow> vec3 \<Rightarrow> vec3" where
  "spec_rot_x r v = (case v of (x, y, z) \<Rightarrow> case rot2 r (y, z) of (y', z') \<Rightarrow> (x, y', z'))"

definition spec_rot_y :: "real \<Rightarrow> vec3 \<Rightarrow> vec3" where
  "spec_rot_y r v = (case v of (x, y, z) \<Rightarrow> case rot2 r (z, x) of (z', x') \<Rightarrow> (x', y, z'))"

definition spec_rot_z :: "real \<Rightarrow> vec3 \<Rightarrow> vec3" where
  "spec_rot_z r v = (case v of (x, y, z) \<Rightarrow> case rot2 r (x, y) of (x', y') \<Rightarrow> (x', y', z))"

definition spec_rotate :: "vec3 \<Rightarrow> vec3 \<Rightarrow> vec3" where
  "spec_rotate r v =
     (case r of (r0, r1, r2) \<Rightarrow> spec_rot_z r2 (spec_rot_y r1 (spec_rot_x r0 v)))"

section \<open>Depth sorter (renderer.py 233-241)\<close>

definition depth_at :: "real list \<Rightarrow> elem \<Rightarrow> error + real" where
  "depth_at depths x = (case x of Idx i \<Rightarrow> py_index depths i | Colour c \<Rightarrow> Inl TypeError)"

definition avg_depth :: "real list \<Rightarrow> facet \<Rightarrow> error + real" where
  "avg_depth depths facet =
     ebind (sequence_err (map (depth_at depths) (take 3 facet)))
       (\<lambda>ds. Inr (sum_list ds / 3))"

text \<open>
  \<open>sorted(xs, key=key, reverse=True)\<close>: the keys are computed once, in order; the list is
  reversed, sorted stably by ascending key, and reversed again.
\<close>

definition py_sorted_reverse :: "('a \<Rightarrow> error + real) \<Rightarrow> 'a list \<Rightarrow> error + 'a list" where
  "py_sorted_reverse key xs =
     ebind (sequence_err (map key xs))
       (\<lambda>ks. Inr (map snd (rev (sort_key fst (rev (zip ks xs))))))"

definition painters_algorithm :: "real list \<Rightarrow> facet list \<Rightarrow> error + facet list" where
  "painters_algorithm depths fs = py_sorted_reverse (avg_depth depths) fs"

text \<open>The decorate, reverse, sort, reverse of \<open>py_sorted_reverse\<close> for a key that cannot raise.\<close>

definition decorated_sort :: "('a \<Rightarrow> real) \<Rightarrow> 'a list \<Rightarrow> (real \<times> 'a) list" where
  "decorated_sort k xs = rev (sort_key fst (rev (map (\<lambda>x. (k x, x)) xs)))"

text \<open>
  The spec's key: the arithmetic mean of the depths of the facet's three referenced
  vertices; and the data model's invariant that those three indices are within
  \<open>[0, vertexCount)\<close>.
\<close>

fun facet_indices :: "facet \<Rightarrow> (int \<times> int \<times> int) option" where
  "facet_indices (Idx a # Idx b # Idx c # rest) = Some (a, b, c)"
| "facet_indices f = None"

definition mean_depth :: "real list \<Rightarrow> facet \<Rightarrow> real" where
  "mean_depth depths f =
     (case facet_indices f of
        Some (a, b, c) \<Rightarrow> (depths ! nat a + depths ! nat b + depths ! nat c) / 3
      | None \<Rightarrow> 0)"

definition valid_index :: "nat \<Rightarrow> int \<Rightarrow> bool" where
  "valid_index n i = (0 \<le> i \<and> i < int n)"

definition valid_facet :: "nat \<Rightarrow> facet \<Rightarrow> bool" where
  "valid_facet n f =
     (case facet_indices f of
        Some (a, b, c) \<Rightarrow> valid_index n a \<and> valid_index n b \<and> valid_index n c
      | None \<Rightarrow> False)"

section \<open>Shader (renderer.py 243-281)\<close>

definition vsub :: "vec3 \<Rightarrow> vec3 \<Rightarrow> vec3" where
  "vsub b a = (case b of (b0, b1, b2) \<Rightarrow> case a of (a0, a1, a2) \<Rightarrow> (b0 - a0, b1 - a1, b2 - a2))"

definition vlength :: "vec3 \<Rightarrow> real" where
  "vlength v = (case v of (x, y, z) \<Rightarrow> sqrt (x ^ 2 + y ^ 2 + z ^ 2))"

definition vdiv :: "vec3 \<Rightarrow> real \<Rightarrow> vec3" where
  "vdiv v l = (case v of (x, y, z) \<Rightarrow> (x / l, y / l, z / l))"

definition cross :: "vec3 \<Rightarrow> vec3 \<Rightarrow> vec3" where
  "cross u v =
     (case u of (u0, u1, u2) \<Rightarrow> case v of (v0, v1, v2) \<Rightarrow>
        (u1 * v2 - u2 * v1, u2 * v0 - u0 * v2, u0 * v1 - u1 * v0))"

definition dot :: "vec3 \<Rightarrow> vec3 \<Rightarrow> real" where
  "dot u v = (case u of (u0, u1, u2) \<Rightarrow> case v of (v0, v1, v2) \<Rightarrow> u0 * v0 + u1 * v1 + u2 * v2)"

text \<open>Lines 249-266: the value of \<open>angle\<close> before the clamp, when neither length is zero.\<close>

definition light_angle :: "vec3 \<Rightarrow> vec3 \<Rightarrow> vec3 \<Rightarrow> vec3 \<Rightarrow> real" where
  "light_angle light a b c =
     (let vector_ab = vsub b a; vector_ac = vsub c a;
          length_ab = vlength vector_ab; length_ac = vlength vector_ac;
          vector_ab = vdiv vector_ab length_ab; vector_ac = vdiv vector_ac length_ac;
          surface_normal = cross vector_ab vector_ac
      in dot light surface_normal)"

definition clamp_angle :: "real \<Rightarrow> real" where
  "clamp_angle angle = (if angle > 1 then 1 else if angle < -1 then -1 else angle)"

definition intensity :: "real \<Rightarrow> real" where
  "intensity angle = arccos (clamp_angle angle) / pi"

definition gouraud_shading :: "vec3 \<Rightarrow> vec3 \<Rightarrow> vec3 \<Rightarrow> vec3 \<Rightarrow> colour \<Rightarrow> error + colour" where
  "gouraud_shading light a b c col =
     (if vlength (vsub b a) = 0 \<or> vlength (vsub c a) = 0 then Inl ZeroDivisionError
      else
        let angle = intensity (light_angle light a b c)
        in case col of (c0, c1, c2) \<Rightarrow>
             Inr (\<lfloor>real_of_int c0 * angle\<rfloor>, \<lfloor>real_of_int c1 * angle\<rfloor>,
                  \<lfloor>real_of_int c2 * angle\<rfloor>))"

section \<open>Model rendering (renderer.py 150-231)\<close>

text \<open>\<open>pygame.draw.polygon(surface, colour, points, width)\<close>, as a command to the canvas.\<close>

datatype draw = Polygon colour "point list" int

definition auto_rotate :: "scene \<Rightarrow> scene" where
  "auto_rotate s =
     (if rotating s
      then (case camera_rotation s of (r0, r1, r2) \<Rightarrow>
              s\<lparr>camera_rotation := (r0 + 2 / 100, r1 + 2 / 100, r2 + 2 / 100)\<rparr>)
      else s)"

definition vertex_coords :: "real list \<Rightarrow> error + vec3" where
  "vertex_coords v = (if length v < 3 then Inl IndexError else Inr (v ! 0, v ! 1, v ! 2))"

definition project_all :: "scene \<Rightarrow> error + (point \<times> real) list" where
  "project_all s =
     sequence_err (map (\<lambda>v. ebind (vertex_coords v) (\<lambda>c. Inr (transform_vertex s c)))
       (vertices s))"

text \<open>\<open>xs[facet[k]]\<close>.\<close>

definition facet_ref :: "'a list \<Rightarrow> facet \<Rightarrow> int \<Rightarrow> error + 'a" where
  "facet_ref xs f k =
     ebind (py_index f k)
       (\<lambda>x. case x of Idx i \<Rightarrow> py_index xs i | Colour c \<Rightarrow> Inl TypeError)"

text \<open>The body of the filled loop (lines 212-222).\<close>

definition fill_facet :: "scene \<Rightarrow> point list \<Rightarrow> facet \<Rightarrow> error + draw" where
  "fill_facet s point_list f =
     ebind (facet_ref point_list f 0) (\<lambda>point1.
     ebind (facet_ref point_list f 1) (\<lambda>point2.
     ebind (facet_ref point_list f 2) (\<lambda>point3.
     ebind (facet_ref (vertices s) f 0) (\<lambda>a.
     ebind (facet_ref (vertices s) f 1) (\<lambda>b.
     ebind (facet_ref (vertices s) f 2) (\<lambda>c.
     ebind (vertex_coords a) (\<lambda>a'.
     ebind (vertex_coords b) (\<lambda>b'.
     ebind (vertex_coords c) (\<lambda>c'.
     ebind (gouraud_shading (light_source s) a' b' c' (facet_colour s)) (\<lambda>colour.
     Inr (Polygon colour [point1, point2, point3] 0)))))))))))"

text \<open>The body of the wireframe loop (lines 226-231).\<close>

definition outline_facet :: "scene \<Rightarrow> point list \<Rightarrow> facet \<Rightarrow> error + draw" where
  "outline_facet s point_list f =
     ebind (facet_ref point_list f 0) (\<lambda>point1.
     ebind (facet_ref point_list f 1) (\<lambda>point2.
     ebind (facet_ref point_list f 2) (\<lambda>point3.
     Inr (Polygon (line_colour s) [point1, point2, point3] 1))))"

text \<open>
  \<open>render_model\<close>: the scene after the call (only the auto-rotation changes it, before
  anything can raise) and the polygons drawn, or the exception that ends the frame.
\<close>

definition render_model :: "scene \<Rightarrow> scene \<times> (error + draw list)" where
  "render_model s0 =
     (let s = auto_rotate s0
      in (s,
          ebind (project_all s) (\<lambda>pd.
            let point_list = map fst pd; depth_list = map snd pd
            in if filled s
               then ebind (painters_algorithm depth_list (facets s))
                      (\<lambda>ordered_facets. sequence_err (map (fill_facet s point_list) ordered_facets))
               else sequence_err (map (outline_facet s point_list) (facets s)))))"

text \<open>Replacing the colour a facet carries, to compare scenes that differ only there.\<close>

definition recolour :: "(colour \<Rightarrow> colour) \<Rightarrow> facet \<Rightarrow> facet" where
  "recolour g f = map (\<lambda>x. case x of Idx i \<Rightarrow> Idx i | Colour c \<Rightarrow> Colour (g c)) f"

text \<open>
  A scene as the main program builds it from a mesh file of three vertices and one facet,
  the facet coloured (255, 0, 0) by \<open>colorize_facets\<close>, after the key f switched to the
  filled mode.
\<close>

definition red_facet_scene :: scene where
  "red_facet_scene =
     (Scene_init 800 600)
       \<lparr> filled := True,
         vertices := [[0, 0, 0], [0, 0, 1], [1, 1, 0]],
         facets := [[Idx 0, Idx 1, Idx 2, Colour (255, 0, 0)]],
         edges := [(0, 1), (1, 2), (0, 2)] \<rparr>"

section \<open>Frame controller (renderer.py 15-20, 313-351)\<close>

record frame_globals =
  FPS :: int
  TOTAL_TIME :: real
  FRAME_RATE_TIME :: real
  FRAME_RATE_COUNT :: int

definition initial_globals :: frame_globals where
  "initial_globals = \<lparr> FPS = 60, TOTAL_TIME = 0, FRAME_RATE_TIME = 0, FRAME_RATE_COUNT = 0 \<rparr>"

definition TARGET_FRAME_TIME :: real where "TARGET_FRAME_TIME = 1 / 60"
definition FRAME_RATE_REFRESH :: int where "FRAME_RATE_REFRESH = 1"

text \<open>The sleep time and the cycle time of a frame that took \<open>time_elapsed\<close> to render.\<close>

definition sleep_time :: "real \<Rightarrow> real" where
  "sleep_time time_elapsed =
     (let st = TARGET_FRAME_TIME - time_elapsed in if st < 0 then 0 else st)"

definition cycle_time :: "real \<Rightarrow> real" where
  "cycle_time time_elapsed = time_elapsed + sleep_time time_elapsed"

text \<open>
  \<open>render_loop\<close>, on the globals: \<open>time_elapsed\<close> is what the clock measured around
  \<open>render_scene\<close>.
\<close>

definition render_loop :: "real \<Rightarrow> frame_globals \<Rightarrow> frame_globals" where
  "render_loop time_elapsed g =
     (let g1 = g\<lparr>FRAME_RATE_TIME := FRAME_RATE_TIME g + cycle_time time_elapsed\<rparr>;
          g2 = (if FRAME_RATE_TIME g1 \<ge> real_of_int FRAME_RATE_REFRESH
                then g1\<lparr>FPS := FRAME_RATE_COUNT g1 div FRAME_RATE_REFRESH,
                        FRAME_RATE_TIME := 0, FRAME_RATE_COUNT := 0\<rparr>
                else g1);
          g3 = g2\<lparr>FRAME_RATE_COUNT := FRAME_RATE_COUNT g2 + 1\<rparr>
      in g3\<lparr>TOTAL_TIME := TOTAL_TIME g3 + cycle_time time_elapsed\<rparr>)"

fun render_loops :: "real list \<Rightarrow> frame_globals \<Rightarrow> frame_globals" where
  "render_loops [] g = g"
| "render_loops (t # ts) g = render_loops ts (render_loop t g)"

section \<open>Input mapper (renderer.py 354-396)\<close>

text \<open>\<open>handle_mouse_event\<close>: two independent tests of the button.\<close>

definition handle_mouse_event :: "int \<Rightarrow> scene \<Rightarrow> scene" where
  "handle_mouse_event button s =
     (let s1 = (if button = 4
                then (case camera_position s of (x, y, z) \<Rightarrow>
                        if z < 0 then s\<lparr>camera_position := (x, y, z + 1)\<rparr> else s)
                else s)
      in if button = 5
         then (case camera_position s1 of (x, y, z) \<Rightarrow> s1\<lparr>camera_position := (x, y, z - 1)\<rparr>)
         else s1)"

fun wheel_events :: "int list \<Rightarrow> scene \<Rightarrow> scene" where
  "wheel_events [] s = s"
| "wheel_events (b # bs) s = wheel_events bs (handle_mouse_event b s)"

definition camera_z :: "scene \<Rightarrow> int" where
  "camera_z s = (case camera_position s of (x, y, z) \<Rightarrow> z)"

text \<open>The key codes of the canvas library: the character codes of r, f and b.\<close>

definition K_r :: int where "K_r = 114"
definition K_f :: int where "K_f = 102"
definition K_b :: int where "K_b = 98"

definition handle_key_event :: "int \<Rightarrow> scene \<Rightarrow> scene" where
  "handle_key_event key s =
     (let s1 = (if key = K_r then s\<lparr>rotating := \<not> rotating s\<rparr> else s);
          s2 = (if key = K_f then s1\<lparr>filled := \<not> filled s1\<rparr> else s1)
      in if key = K_b
         then (case camera_position s2 of (x, y, z) \<Rightarrow>
                 s2\<lparr>camera_position := (x, y, -10), camera_rotation := (0, 0, 0)\<rparr>)
         else s2)"

text \<open>
  What the canvas answers during one \<open>handle_mouse_motion\<close>: the button states and the
  relative movements of the two possible \<open>get_rel\<close> calls.
\<close>

record motion =
  pressed_left :: bool
  rel_left :: "int \<times> int"
  pressed_right :: bool
  rel_right :: "int \<times> int"

definition handle_mouse_motion :: "motion \<Rightarrow> scene \<Rightarrow> scene" where
  "handle_mouse_motion m s =
     (let s1 = (if pressed_left m
                then (case camera_rotation s of (r0, r1, r2) \<Rightarrow>
                        s\<lparr>camera_rotation :=
                            (r0 + real_of_int (fst (rel_left m)) * (2 / 100),
                             r1 + real_of_int (snd (rel_left m)) * (2 / 100), r2)\<rparr>)
                else s)
      in if pressed_right m
         then (case camera_rotation s1 of (r0, r1, r2) \<Rightarrow>
                 s1\<lparr>camera_rotation :=
                      (r0, r1, r2 + real_of_int (fst (rel_right m)) * (2 / 100))\<rparr>)
         else s1)"

section \<open>Main program (renderer.py 99-105, 399-441)\<close>

definition load_model :: "scene \<Rightarrow> real list list \<Rightarrow> facet list \<Rightarrow> edge list \<Rightarrow> scene" where
  "load_model s vs fs es = s\<lparr>vertices := vs, facets := fs, edges := es\<rparr>"

text \<open>\<open>colorize_facets\<close>; \<open>rnd i\<close> is the triple the random generator gives for facet \<open>i\<close>.\<close>

definition colorize_facets :: "(nat \<Rightarrow> colour) \<Rightarrow> int list list \<Rightarrow> facet list" where
  "colorize_facets rnd fs = map (\<lambda>(i, f). map Idx f @ [Colour (rnd i)]) (enumerate 0 fs)"

text \<open>
  Lines 420-426: the scene when control leaves the load, and the exception if one was
  raised. \<open>arg\<close> is \<open>None\<close> without a command-line argument, else the file named.
\<close>

definition main_load ::
  "(string \<Rightarrow> real option) \<Rightarrow> (string \<Rightarrow> int option) \<Rightarrow> (nat \<Rightarrow> colour) \<Rightarrow>
   string list option option \<Rightarrow> scene \<Rightarrow> scene \<times> error option" where
  "main_load float_of int_of rnd arg s =
     (case arg of
        None \<Rightarrow> (s, None)
      | Some file \<Rightarrow>
          (case read float_of int_of file of
             Inl e \<Rightarrow> (s, Some e)
           | Inr (vs, fs, es) \<Rightarrow> (load_model s vs (colorize_facets rnd fs) es, None)))"

datatype event = QUIT | KEYDOWN int | MOUSEBUTTONDOWN int | MOUSEMOTION motion | OTHER

definition dispatch :: "event \<Rightarrow> scene \<Rightarrow> scene" where
  "dispatch ev s =
     (case ev of
        KEYDOWN key \<Rightarrow> handle_key_event key s
      | MOUSEBUTTONDOWN button \<Rightarrow> handle_mouse_event button s
      | MOUSEMOTION m \<Rightarrow> handle_mouse_motion m s
      | _ \<Rightarrow> s)"

text \<open>
  The run of the main loop over what happens to it: an event taken from the queue, or a
  frame rendered. The run ends at a quit event and at a frame that raises.
\<close>

datatype action = Event event | Frame

fun run :: "action list \<Rightarrow> scene \<Rightarrow> scene" where
  "run [] s = s"
| "run (Event QUIT # acts) s = s"
| "run (Event ev # acts) s = run acts (dispatch ev s)"
| "run (Frame # acts) s =
     (case render_model s of
        (s', Inl e) \<Rightarrow> s'
      | (s', Inr ds) \<Rightarrow> run acts s')"

definition camera_xy :: "scene \<Rightarrow> int \<times> int" where
  "camera_xy s = (case camera_position s of (x, y, z) \<Rightarrow> (x, y))"

section \<open>Zoom clamp\<close>

lemma handle_mouse_event_z:
  "camera_z (handle_mouse_event b s) =
     (if b = 4 then (if camera_z s < 0 then camera_z s + 1 else camera_z s)
      else if b = 5 then camera_z s - 1 else camera_z s)"
  by (cases "camera_position s") (simp add: handle_mouse_event_def camera_z_def)

lemma wheel_events_append:
  "wheel_events (bs @ cs) s = wheel_events cs (wheel_events bs s)"
  by (induction bs arbitrary: s) simp_all

text \<open>
  C8, as stated, fails: ten wheel-up notches from the initial camera (Z = -10) bring the
  camera Z to 0, which is non-negative.
\<close>

theorem camera_z_reaches_zero:
  "\<not> camera_z (wheel_events [4, 4, 4, 4, 4, 4, 4, 4, 4, 4] (Scene_init 800 600)) < 0"
  by (simp add: handle_mouse_event_def camera_z_def Scene_init_def)

text \<open>
  C8, amended: for every sequence of button events applied to a scene whose camera Z is at
  most 0 (the initial camera has Z = -10), each event changes the camera Z by +1, -1 or
  not at all, and the camera Z never becomes positive.
\<close>

theorem camera_z_never_positive:
  assumes "camera_z s \<le> 0"
  shows "camera_z (wheel_events bs s) \<le> 0
    \<and> (\<forall>k < length bs.
          camera_z (wheel_events (take (Suc k) bs) s) - camera_z (wheel_events (take k bs) s)
            \<in> {1, -1, 0}
        \<and> camera_z (wheel_events (take (Suc k) bs) s) \<le> 0)"
proof -
  have inv: "camera_z (wheel_events cs t) \<le> 0" if "camera_z t \<le> 0" for cs t
    using that
  proof (induction cs arbitrary: t)
    case Nil
    then show ?case by simp
  next
    case (Cons c cs)
    have "camera_z (handle_mouse_event c t) \<le> 0"
      using Cons.prems by (simp add: handle_mouse_event_z)
    then show ?case using Cons.IH by simp
  qed
  have step: "camera_z (wheel_events (take (Suc k) bs) s) - camera_z (wheel_events (take k bs) s)
            \<in> {1, -1, 0}" if "k < length bs" for k
  proof -
    have "take (Suc k) bs = take k bs @ [bs ! k]"
      using that by (simp add: take_Suc_conv_app_nth)
    then have "wheel_events (take (Suc k) bs) s
        = handle_mouse_event (bs ! k) (wheel_events (take k bs) s)"
      by (simp add: wheel_events_append)
    then show ?thesis by (simp add: handle_mouse_event_z)
  qed
  show ?thesis using inv [OF assms] step by blast
qed

theorem camera_z_never_positive_witness:
  "camera_z (Scene_init 800 600) \<le> 0
   \<and> camera_z (wheel_events [4, 5, 4] (Scene_init 800 600)) \<le> 0"
proof -
  have h: "camera_z (Scene_init 800 600) \<le> 0"
    by (simp add: camera_z_def Scene_init_def)
  show ?thesis using h camera_z_never_positive [OF h, of "[4, 5, 4]"] by simp
qed

section \<open>Transformer: the depth guard and the rotation order\<close>

text \<open>
  C1, as stated, fails: with zero rotation and the camera at (0, 0, -10), the depth of the
  object-space vertex (0, 0, -10) after the translation step is not 0 (it is 20, since the
  first rotation step negates x and z at angle zero).
\<close>

theorem transform_depth_counterexample:
  "snd (snd (translate (camera_position (Scene_init 800 600))
       (rotate (camera_rotation (Scene_init 800 600)) (0, 0, -10)))) \<noteq> 0"
  by (simp add: Scene_init_def rotate_def translate_def)

text \<open>
  C1, amended: with all three rotation angles zero and the camera at (0, 0, -10), the
  vertex (0, 0, -10) has depth exactly 20 after the translation step, no epsilon is
  substituted, and its screen coordinates are the screen centre exactly; the vertex whose
  depth after translation is exactly 0, and is substituted with 0.00001, is (0, 0, 10),
  and its screen coordinates are the screen centre exactly too.
\<close>

theorem transform_zero_rotation:
  assumes "camera_rotation s = (0, 0, 0)" and "camera_position s = (0, 0, -10)"
  shows "translate (camera_position s) (rotate (camera_rotation s) (0, 0, -10)) = (0, 0, 20)
       \<and> transform_vertex s (0, 0, -10) = ((centre_x s, centre_y s), 20)
       \<and> translate (camera_position s) (rotate (camera_rotation s) (0, 0, 10)) = (0, 0, 0)
       \<and> transform_vertex s (0, 0, 10) = ((centre_x s, centre_y s), 1 / 100000)"
  using assms
  by (simp add: transform_vertex_def rotate_def translate_def guard_depth_def
      py_int_of_float_def Let_def)

theorem transform_zero_rotation_witness:
  "transform_vertex (Scene_init 800 600) (0, 0, 10) = ((400, 300), 1 / 100000)
   \<and> transform_vertex (Scene_init 800 600) (0, 0, -10) = ((400, 300), 20)"
proof -
  have r: "camera_rotation (Scene_init 800 600) = (0, 0, 0)"
    by (simp add: Scene_init_def)
  have p: "camera_position (Scene_init 800 600) = (0, 0, -10)"
    by (simp add: Scene_init_def)
  from transform_zero_rotation [OF r p] show ?thesis
    by (simp add: Scene_init_def)
qed

text \<open>
  C2, as stated, fails: with all angles zero the rotations X, Y, Z of the spec leave the
  vertex (1, 0, 0) where it is, and the code moves it to (-1, 0, 0).
\<close>

theorem rotate_counterexample:
  "rotate (0, 0, 0) (1, 0, 0) \<noteq> spec_rotate (0, 0, 0) (1, 0, 0)"
  by (simp add: rotate_def spec_rotate_def spec_rot_x_def spec_rot_y_def spec_rot_z_def
      rot2_def)

text \<open>
  C2, amended: for every vertex and every camera rotation (r0, r1, r2), the transform
  applies three sequential standard 2D plane rotations, each on the coordinates the
  previous one produced, in the fixed order: about the Y axis (x and z turn, y stays) by
  the angle pi - r0, then about the X axis (y and z turn, x stays) by -r1, then about the
  Z axis (x and y turn, z stays) by r2.
\<close>

theorem rotate_order:
  "rotate (r0, r1, r2) v = spec_rot_z r2 (spec_rot_x (- r1) (spec_rot_y (pi - r0) v))"
  by (cases v)
    (simp add: rotate_def spec_rot_x_def spec_rot_y_def spec_rot_z_def rot2_def Let_def)

section \<open>Depth sorter: permutation, order, stability\<close>

lemma sequence_err_map_Inr: "sequence_err (map (\<lambda>x. Inr (f x)) xs) = Inr (map f xs)"
  by (induction xs) simp_all

lemma avg_depth_valid:
  assumes "valid_facet (length depths) f"
  shows "avg_depth depths f = Inr (mean_depth depths f)"
proof -
  from assms obtain a b c rest where f: "f = Idx a # Idx b # Idx c # rest"
    by (cases f rule: facet_indices.cases) (simp_all add: valid_facet_def)
  with assms have v: "valid_index (length depths) a" "valid_index (length depths) b"
      "valid_index (length depths) c"
    by (simp_all add: valid_facet_def)
  then have "py_index depths a = Inr (depths ! nat a)" "py_index depths b = Inr (depths ! nat b)"
      "py_index depths c = Inr (depths ! nat c)"
    by (simp_all add: py_index_def valid_index_def Let_def)
  then show ?thesis
    by (simp add: f avg_depth_def mean_depth_def depth_at_def ebind_def)
qed

lemma avg_depth_all_valid:
  assumes "\<forall>f \<in> set fs. valid_facet (length depths) f"
  shows "map (avg_depth depths) fs = map (\<lambda>f. Inr (mean_depth depths f)) fs"
  using assms by (simp add: avg_depth_valid)

lemma zip_map_self: "zip (map k xs) xs = map (\<lambda>x. (k x, x)) xs"
  by (induction xs) simp_all

lemma py_sorted_reverse_total:
  "py_sorted_reverse (\<lambda>x. Inr (k x)) xs = Inr (map snd (decorated_sort k xs))"
  by (simp add: py_sorted_reverse_def sequence_err_map_Inr ebind_def zip_map_self
      decorated_sort_def)

lemma decorated_sort_keys: "p \<in> set (decorated_sort k xs) \<Longrightarrow> fst p = k (snd p)"
  by (auto simp: decorated_sort_def)

lemma decorated_sort_mset: "mset (map snd (decorated_sort k xs)) = mset xs"
proof -
  have "mset (decorated_sort k xs) = mset (map (\<lambda>x. (k x, x)) xs)"
    by (simp add: decorated_sort_def)
  then have "image_mset snd (mset (decorated_sort k xs)) = image_mset snd (mset (map (\<lambda>x. (k x, x)) xs))"
    by simp
  then show ?thesis by (simp add: image_mset.compositionality comp_def)
qed

lemma decorated_sort_descending:
  "sorted_wrt (\<lambda>x y. k x \<ge> k y) (map snd (decorated_sort k xs))"
proof -
  have "sorted (map fst (sort_key fst (rev (map (\<lambda>x. (k x, x)) xs))))"
    by (rule sorted_sort_key)
  then have "sorted_wrt (\<lambda>p q. fst p \<le> fst q) (sort_key fst (rev (map (\<lambda>x. (k x, x)) xs)))"
    by (simp add: sorted_map)
  then have "sorted_wrt (\<lambda>p q. fst q \<le> fst p) (decorated_sort k xs)"
    by (simp add: decorated_sort_def sorted_wrt_rev)
  then have "sorted_wrt (\<lambda>p q. k (snd q) \<le> k (snd p)) (decorated_sort k xs)"
    by (rule sorted_wrt_mono_rel [rotated]) (simp add: decorated_sort_keys)
  then show ?thesis by (simp add: sorted_wrt_map)
qed

lemma decorated_sort_stable:
  "filter (\<lambda>x. k x = d) (map snd (decorated_sort k xs)) = filter (\<lambda>x. k x = d) xs"
proof -
  let ?zs = "map (\<lambda>x. (k x, x)) xs"
  have "filter (\<lambda>x. k x = d) (map snd (decorated_sort k xs))
      = map snd (filter (\<lambda>p. k (snd p) = d) (decorated_sort k xs))"
    by (simp add: filter_map comp_def)
  also have "filter (\<lambda>p. k (snd p) = d) (decorated_sort k xs)
      = filter (\<lambda>p. fst p = d) (decorated_sort k xs)"
    by (rule filter_cong) (simp_all add: decorated_sort_keys)
  also have "\<dots> = rev (filter (\<lambda>p. fst p = d) (sort_key fst (rev ?zs)))"
    by (simp add: decorated_sort_def rev_filter)
  also have "\<dots> = rev (filter (\<lambda>p. fst p = d) (rev ?zs))"
    by (simp only: sort_key_stable)
  also have "\<dots> = filter (\<lambda>p. fst p = d) ?zs"
    by (simp add: rev_filter)
  also have "map snd \<dots> = filter (\<lambda>x. k x = d) xs"
    by (simp add: filter_map comp_def)
  finally show ?thesis .
qed

text \<open>
  C3: for every depth list and every list of facets whose three vertex indices are valid
  for it, the depth sorter returns a permutation of the facet list, ordered by descending
  arithmetic mean of the depths of each facet's three referenced vertices, and facets of
  equal mean depth keep their original relative order.
\<close>

theorem painters_algorithm_stable_descending:
  assumes "\<forall>f \<in> set fs. valid_facet (length depths) f"
  shows "\<exists>out. painters_algorithm depths fs = Inr out
     \<and> mset out = mset fs
     \<and> sorted_wrt (\<lambda>f g. mean_depth depths f \<ge> mean_depth depths g) out
     \<and> (\<forall>d. filter (\<lambda>f. mean_depth depths f = d) out
             = filter (\<lambda>f. mean_depth depths f = d) fs)"
proof -
  let ?k = "mean_depth depths"
  have "painters_algorithm depths fs
      = ebind (sequence_err (map (avg_depth depths) fs))
          (\<lambda>ks. Inr (map snd (rev (sort_key fst (rev (zip ks fs))))))"
    by (simp add: painters_algorithm_def py_sorted_reverse_def)
  also have "\<dots> = py_sorted_reverse (\<lambda>f. Inr (?k f)) fs"
    by (simp add: avg_depth_all_valid [OF assms] py_sorted_reverse_def)
  also have "\<dots> = Inr (map snd (decorated_sort ?k fs))"
    by (rule py_sorted_reverse_total)
  finally have eq: "painters_algorithm depths fs = Inr (map snd (decorated_sort ?k fs))" .
  show ?thesis
    by (intro exI [of _ "map snd (decorated_sort ?k fs)"] conjI allI eq decorated_sort_mset
        decorated_sort_descending decorated_sort_stable)
qed

theorem painters_algorithm_stable_descending_witness:
  "\<exists>out. painters_algorithm [1, 5, 3, 1]
            [[Idx 0, Idx 1, Idx 3], [Idx 1, Idx 2, Idx 3, Colour (1, 2, 3)], [Idx 0, Idx 3, Idx 1]]
          = Inr out
     \<and> mset out
         = mset [[Idx 0, Idx 1, Idx 3], [Idx 1, Idx 2, Idx 3, Colour (1, 2, 3)],
                 [Idx 0, Idx 3, Idx 1]]
     \<and> filter (\<lambda>f. mean_depth [1, 5, 3, 1] f = 7 / 3) out
         = [[Idx 0, Idx 1, Idx 3], [Idx 0, Idx 3, Idx 1]]"
proof -
  let ?fs = "[[Idx 0, Idx 1, Idx 3], [Idx 1, Idx 2, Idx 3, Colour (1, 2, 3)],
              [Idx 0, Idx 3, Idx 1]]"
  let ?ds = "[1, 5, 3, 1] :: real list"
  have v: "\<forall>f \<in> set ?fs. valid_facet (length ?ds) f"
    by (simp add: valid_facet_def valid_index_def)
  from painters_algorithm_stable_descending [OF v] obtain out
    where o: "painters_algorithm ?ds ?fs = Inr out" "mset out = mset ?fs"
      and st: "\<forall>d. filter (\<lambda>f. mean_depth ?ds f = d) out = filter (\<lambda>f. mean_depth ?ds f = d) ?fs"
    by blast
  have f: "filter (\<lambda>f. mean_depth ?ds f = 7 / 3) ?fs
      = [[Idx 0, Idx 1, Idx 3], [Idx 0, Idx 3, Idx 1]]"
    by (simp add: mean_depth_def)
  have "filter (\<lambda>f. mean_depth ?ds f = 7 / 3) out = filter (\<lambda>f. mean_depth ?ds f = 7 / 3) ?fs"
    by (rule st [rule_format])
  then have "filter (\<lambda>f. mean_depth ?ds f = 7 / 3) out
      = [[Idx 0, Idx 1, Idx 3], [Idx 0, Idx 3, Idx 1]]"
    by (simp only: f)
  with o show ?thesis by blast
qed

section \<open>Edge derivation\<close>

lemma first_seen_snoc: "first_seen (xs @ [e]) = add_edge e (first_seen xs)"
  by (simp add: first_seen_def add_edge_def)

lemma set_first_seen: "set (first_seen xs) = set xs"
  by (simp add: first_seen_def)

lemma distinct_first_seen: "distinct (first_seen xs)"
  by (simp add: first_seen_def)

lemma length_first_seen: "length (first_seen xs) \<le> length xs"
  by (simp add: first_seen_def) (metis length_remdups_leq length_rev)

lemma convert_loop_first_seen:
  assumes "\<forall>f \<in> set fs. 3 \<le> length f"
  shows "convert_loop fs (first_seen xs) = Inr (first_seen (xs @ concat (map facet_edges fs)))"
  using assms
proof (induction fs arbitrary: xs)
  case Nil
  then show ?case by simp
next
  case (Cons f fs)
  have len: "\<not> length f < 3" using Cons.prems by auto
  have "add_edge (sorted2 (f ! 0) (f ! 2)) (add_edge (sorted2 (f ! 1) (f ! 2))
          (add_edge (sorted2 (f ! 0) (f ! 1)) (first_seen xs)))
        = first_seen (xs @ facet_edges f)"
    by (simp add: facet_edges_def first_seen_snoc [symmetric])
  moreover have "convert_loop fs (first_seen (xs @ facet_edges f))
       = Inr (first_seen ((xs @ facet_edges f) @ concat (map facet_edges fs)))"
    using Cons.prems by (intro Cons.IH) simp
  ultimately show ?case using len by (simp add: Let_def)
qed

lemma convert_loop_short:
  assumes "f \<in> set fs" and "length f < 3"
  shows "convert_loop fs es = Inl IndexError"
  using assms by (induction fs arbitrary: es) (auto simp: Let_def)

lemma sorted2_canonical: "fst (sorted2 a b) \<le> snd (sorted2 a b)"
  by (simp add: sorted2_def)

lemma facet_edges_canonical: "e \<in> set (facet_edges f) \<Longrightarrow> fst e \<le> snd e"
  by (auto simp: facet_edges_def sorted2_canonical)

lemma length_concat_facet_edges: "length (concat (map facet_edges fs)) = 3 * length fs"
  by (induction fs) (simp_all add: facet_edges_def)

lemma canonical_pair_inj:
  assumes "fst e \<le> snd e" "fst e' \<le> snd e'" "{fst e, snd e} = {fst e', snd e'}"
  shows "e = (e' :: edge)"
  using assms by (cases e; cases e') (auto simp: doubleton_eq_iff)


lemma convert_cube:
  "convert_facets_to_edges cube_facets =
     Inr [(0, 1), (1, 2), (0, 2), (2, 3), (0, 3), (1, 5), (5, 6), (1, 6), (2, 6),
          (4, 5), (4, 7), (5, 7), (6, 7), (0, 4), (3, 4), (3, 7), (3, 6), (0, 5)]"
  by code_simp

text \<open>
  C5, as stated, fails on its last part: the twelve triangular facets of the cube give 18
  edges (the 12 edges of the cube and the 6 diagonals of its faces), not 12.
\<close>

theorem cube_edges_counterexample:
  "\<not> (\<exists>E. convert_facets_to_edges cube_facets = Inr E \<and> length E = 12)"
  by (simp add: convert_cube)

text \<open>
  C5, amended: for every facet list F whose facets have at least three indices,
  the edge derivation returns a list with no duplicate pair and no duplicate unordered
  pair, every pair sorted ascending, in first-seen order, of at most 3 times as many edges
  as F has facets; for the cube's twelve facets it returns exactly 18 edges.
\<close>

theorem convert_facets_to_edges_unique:
  assumes "\<forall>f \<in> set F. 3 \<le> length f"
  shows "(\<exists>E. convert_facets_to_edges F = Inr E
           \<and> distinct E
           \<and> distinct (map (\<lambda>e. {fst e, snd e}) E)
           \<and> list_all (\<lambda>e. fst e \<le> snd e) E
           \<and> E = first_seen (concat (map facet_edges F))
           \<and> length E \<le> 3 * length F)
       \<and> (\<exists>C. convert_facets_to_edges cube_facets = Inr C \<and> length C = 18)"
proof -
  let ?E = "first_seen (concat (map facet_edges F))"
  have "convert_loop F (first_seen []) = Inr (first_seen ([] @ concat (map facet_edges F)))"
    using assms by (rule convert_loop_first_seen)
  then have eq: "convert_facets_to_edges F = Inr ?E"
    by (simp add: convert_facets_to_edges_def first_seen_def)
  have canon: "fst e \<le> snd e" if "e \<in> set ?E" for e
    using that by (auto simp: set_first_seen facet_edges_canonical)
  have "inj_on (\<lambda>e. {fst e, snd e}) (set ?E)"
  proof (rule inj_onI)
    fix e e' assume "e \<in> set ?E" "e' \<in> set ?E" "{fst e, snd e} = {fst e', snd e'}"
    then show "e = e'" using canon canonical_pair_inj by blast
  qed
  then have pairs: "distinct (map (\<lambda>e. {fst e, snd e}) ?E)"
    by (simp only: distinct_map distinct_first_seen simp_thms)
  have len: "length ?E \<le> 3 * length F"
    using length_first_seen [of "concat (map facet_edges F)"]
    by (simp only: length_concat_facet_edges)
  have all: "list_all (\<lambda>e. fst e \<le> snd e) ?E"
    using canon by (simp only: list_all_iff) blast
  have cube: "\<exists>C. convert_facets_to_edges cube_facets = Inr C \<and> length C = 18"
    by (simp add: convert_cube)
  have "\<exists>E. convert_facets_to_edges F = Inr E
           \<and> distinct E
           \<and> distinct (map (\<lambda>e. {fst e, snd e}) E)
           \<and> list_all (\<lambda>e. fst e \<le> snd e) E
           \<and> E = first_seen (concat (map facet_edges F))
           \<and> length E \<le> 3 * length F"
    by (intro exI [of _ ?E] conjI eq distinct_first_seen pairs all refl len)
  then show ?thesis using cube by (rule conjI)
qed

theorem convert_facets_to_edges_unique_witness:
  "\<exists>E. convert_facets_to_edges [[0, 1, 2], [2, 1, 3]] = Inr E
      \<and> distinct E \<and> length E \<le> 3 * length [[0, 1, 2], [2, 1, 3 :: int]]"
proof -
  have h: "\<forall>f \<in> set [[0, 1, 2], [2, 1, 3 :: int]]. 3 \<le> length f" by simp
  from convert_facets_to_edges_unique [OF h] show ?thesis by blast
qed

section \<open>Shader: intensity and its two fixed points\<close>

lemma vlength_zero_iff: "vlength (vsub b a) = 0 \<longleftrightarrow> a = b"
proof -
  obtain a0 a1 a2 b0 b1 b2 where ab: "a = (a0, a1, a2)" "b = (b0, b1, b2)"
    by (cases a, cases b) auto
  have "(b0 - a0)\<^sup>2 + (b1 - a1)\<^sup>2 + (b2 - a2)\<^sup>2 = 0 \<longleftrightarrow> b0 = a0 \<and> b1 = a1 \<and> b2 = a2"
    by (simp add: sum_power2_eq_zero_iff add_nonneg_eq_0_iff)
  then show ?thesis by (auto simp: ab vlength_def vsub_def)
qed

lemma intensity_bounds: "0 \<le> intensity x \<and> intensity x \<le> 1"
proof -
  have c: "- 1 \<le> clamp_angle x" "clamp_angle x \<le> 1"
    by (simp_all add: clamp_angle_def)
  from arccos_bounded [OF c] show ?thesis
    by (simp add: intensity_def)
qed

lemma intensity_one: "intensity 1 = 0"
  by (simp add: intensity_def clamp_angle_def)

lemma intensity_zero: "intensity 0 = 1 / 2"
  by (simp add: intensity_def clamp_angle_def)

text \<open>
  C4: for every facet (a, b, c) with pairwise distinct vertices and every base colour, the
  shader returns the colour whose channels are the floors of the base channels times the
  intensity arccos(clamp(dot, -1, 1)) / pi, the intensity lies in [0, 1], a dot product of
  exactly 1 gives the colour (0, 0, 0), and a dot product of exactly 0 gives
  floor(channel * 0.5) in each channel.
\<close>

theorem gouraud_shading_intensity:
  assumes "a \<noteq> b" and "a \<noteq> c" and "b \<noteq> c"
  shows "\<exists>shade. gouraud_shading light a b c (c0, c1, c2) = Inr shade
     \<and> shade = (\<lfloor>real_of_int c0 * (arccos (clamp_angle (light_angle light a b c)) / pi)\<rfloor>,
                \<lfloor>real_of_int c1 * (arccos (clamp_angle (light_angle light a b c)) / pi)\<rfloor>,
                \<lfloor>real_of_int c2 * (arccos (clamp_angle (light_angle light a b c)) / pi)\<rfloor>)
     \<and> 0 \<le> arccos (clamp_angle (light_angle light a b c)) / pi
     \<and> arccos (clamp_angle (light_angle light a b c)) / pi \<le> 1
     \<and> (light_angle light a b c = 1 \<longrightarrow> shade = (0, 0, 0))
     \<and> (light_angle light a b c = 0 \<longrightarrow>
           shade = (\<lfloor>real_of_int c0 * (1 / 2)\<rfloor>, \<lfloor>real_of_int c1 * (1 / 2)\<rfloor>,
                    \<lfloor>real_of_int c2 * (1 / 2)\<rfloor>))"
proof -
  let ?d = "light_angle light a b c"
  define I where "I = arccos (clamp_angle ?d) / pi"
  have i: "intensity ?d = I"
    by (simp add: intensity_def I_def)
  have nz: "\<not> (vlength (vsub b a) = 0 \<or> vlength (vsub c a) = 0)"
    using assms by (simp add: vlength_zero_iff)
  have eq: "gouraud_shading light a b c (c0, c1, c2)
      = Inr (\<lfloor>real_of_int c0 * I\<rfloor>, \<lfloor>real_of_int c1 * I\<rfloor>, \<lfloor>real_of_int c2 * I\<rfloor>)"
    using nz by (simp add: gouraud_shading_def Let_def i)
  have bounds: "0 \<le> I" "I \<le> 1"
    using intensity_bounds [of ?d] by (simp_all add: i)
  have one: "I = 0" if "?d = 1"
    using intensity_one that by (simp add: i [symmetric])
  have zero: "I = 1 / 2" if "?d = 0"
    using intensity_zero that by (simp add: i [symmetric])
  have sh1: "(\<lfloor>real_of_int c0 * I\<rfloor>, \<lfloor>real_of_int c1 * I\<rfloor>, \<lfloor>real_of_int c2 * I\<rfloor>) = (0, 0, 0)"
    if "?d = 1"
    by (simp add: one [OF that])
  have sh0: "(\<lfloor>real_of_int c0 * I\<rfloor>, \<lfloor>real_of_int c1 * I\<rfloor>, \<lfloor>real_of_int c2 * I\<rfloor>)
      = (\<lfloor>real_of_int c0 * (1 / 2)\<rfloor>, \<lfloor>real_of_int c1 * (1 / 2)\<rfloor>,
         \<lfloor>real_of_int c2 * (1 / 2)\<rfloor>)"
    if "?d = 0"
    by (simp only: zero [OF that])
  have "\<exists>shade. gouraud_shading light a b c (c0, c1, c2) = Inr shade
     \<and> shade = (\<lfloor>real_of_int c0 * I\<rfloor>, \<lfloor>real_of_int c1 * I\<rfloor>, \<lfloor>real_of_int c2 * I\<rfloor>)
     \<and> 0 \<le> I \<and> I \<le> 1
     \<and> (?d = 1 \<longrightarrow> shade = (0, 0, 0))
     \<and> (?d = 0 \<longrightarrow>
           shade = (\<lfloor>real_of_int c0 * (1 / 2)\<rfloor>, \<lfloor>real_of_int c1 * (1 / 2)\<rfloor>,
                    \<lfloor>real_of_int c2 * (1 / 2)\<rfloor>))"
    by (intro exI [of _ "(\<lfloor>real_of_int c0 * I\<rfloor>, \<lfloor>real_of_int c1 * I\<rfloor>, \<lfloor>real_of_int c2 * I\<rfloor>)"]
        conjI impI eq refl bounds sh1 sh0)
  then show ?thesis unfolding I_def .
qed

theorem gouraud_shading_intensity_witness:
  "gouraud_shading (0, 0, 1) (0, 0, 0) (1, 0, 0) (0, 1, 0) (100, 255, 100) = Inr (0, 0, 0)
   \<and> gouraud_shading (1, 0, 0) (0, 0, 0) (1, 0, 0) (0, 1, 0) (100, 255, 100) = Inr (50, 127, 50)"
proof -
  have ne: "(0 :: real, 0 :: real, 0 :: real) \<noteq> (1, 0, 0)"
      "(0 :: real, 0 :: real, 0 :: real) \<noteq> (0, 1, 0)"
      "(1 :: real, 0 :: real, 0 :: real) \<noteq> (0, 1, 0)"
    by simp_all
  have d1: "light_angle (0, 0, 1) (0, 0, 0) (1, 0, 0) (0, 1, 0) = 1"
    by (simp add: light_angle_def vsub_def vlength_def vdiv_def cross_def dot_def)
  have d0: "light_angle (1, 0, 0) (0, 0, 0) (1, 0, 0) (0, 1, 0) = 0"
    by (simp add: light_angle_def vsub_def vlength_def vdiv_def cross_def dot_def)
  have h: "\<lfloor>real_of_int 100 * (1 / 2)\<rfloor> = 50" "\<lfloor>real_of_int 255 * (1 / 2)\<rfloor> = 127"
    by simp_all
  from gouraud_shading_intensity [OF ne, of "(0, 0, 1)" 100 255 100]
  obtain sh where "gouraud_shading (0, 0, 1) (0, 0, 0) (1, 0, 0) (0, 1, 0) (100, 255, 100) = Inr sh"
    and "light_angle (0, 0, 1) (0, 0, 0) (1, 0, 0) (0, 1, 0) = 1 \<longrightarrow> sh = (0, 0, 0)"
    by blast
  with d1 have
    "gouraud_shading (0, 0, 1) (0, 0, 0) (1, 0, 0) (0, 1, 0) (100, 255, 100) = Inr (0, 0, 0)"
    by simp
  moreover from gouraud_shading_intensity [OF ne, of "(1, 0, 0)" 100 255 100]
  obtain sh' where "gouraud_shading (1, 0, 0) (0, 0, 0) (1, 0, 0) (0, 1, 0) (100, 255, 100) = Inr sh'"
    and "light_angle (1, 0, 0) (0, 0, 0) (1, 0, 0) (0, 1, 0) = 0 \<longrightarrow>
       sh' = (\<lfloor>real_of_int 100 * (1 / 2)\<rfloor>, \<lfloor>real_of_int 255 * (1 / 2)\<rfloor>,
              \<lfloor>real_of_int 100 * (1 / 2)\<rfloor>)"
    by blast
  with d0 h have
    "gouraud_shading (1, 0, 0) (0, 0, 0) (1, 0, 0) (0, 1, 0) (100, 255, 100) = Inr (50, 127, 50)"
    by simp
  ultimately show ?thesis by (rule conjI)
qed

section \<open>Camera position: X and Y are never written\<close>

lemma handle_mouse_event_xy: "camera_xy (handle_mouse_event b s) = camera_xy s"
  by (cases "camera_position s") (simp add: handle_mouse_event_def camera_xy_def)

lemma handle_key_event_xy: "camera_xy (handle_key_event k s) = camera_xy s"
  by (cases "camera_position s") (simp add: handle_key_event_def camera_xy_def)

lemma handle_mouse_motion_xy: "camera_xy (handle_mouse_motion m s) = camera_xy s"
  by (cases "camera_rotation s") (simp add: handle_mouse_motion_def camera_xy_def)

lemma auto_rotate_xy: "camera_xy (auto_rotate s) = camera_xy s"
  by (cases "camera_rotation s") (simp add: auto_rotate_def camera_xy_def)

lemma render_model_scene: "fst (render_model s) = auto_rotate s"
  by (simp add: render_model_def Let_def)

lemma dispatch_xy: "camera_xy (dispatch ev s) = camera_xy s"
  by (cases ev)
    (simp_all add: dispatch_def handle_mouse_event_xy handle_key_event_xy handle_mouse_motion_xy)

lemma load_model_xy: "camera_xy (load_model s vs fs es) = camera_xy s"
  by (simp add: load_model_def camera_xy_def)

lemma main_load_xy: "camera_xy (fst (main_load float_of int_of rnd arg s)) = camera_xy s"
  by (simp add: main_load_def load_model_xy split: option.splits sum.splits prod.splits)

lemma run_xy: "camera_xy (run acts s) = camera_xy s"
proof (induction acts arbitrary: s)
  case Nil
  then show ?case by simp
next
  case (Cons a acts)
  show ?case
  proof (cases a)
    case (Event ev)
    then show ?thesis
      by (cases ev) (simp_all add: Cons.IH dispatch_xy)
  next
    case Frame
    obtain s' r where rm: "render_model s = (s', r)" by (cases "render_model s")
    then have s': "s' = auto_rotate s" using render_model_scene [of s] by simp
    show ?thesis
    proof (cases r)
      case (Inl e)
      then show ?thesis using Frame rm s' by (simp add: auto_rotate_xy)
    next
      case (Inr ds)
      then show ?thesis using Frame rm s' by (simp add: Cons.IH auto_rotate_xy)
    qed
  qed
qed

text \<open>
  C10: whatever the program does after creating the scene (loading a mesh or failing to,
  any sequence of key, button and motion events and of frames rendered), the X and Y
  components of the camera position stay at their initial value 0: the wheel handler and
  the reset key write the Z component only, and nothing else writes the position.
\<close>

theorem camera_xy_never_changes:
  "camera_xy (run acts (fst (main_load float_of int_of rnd arg (Scene_init w h)))) = (0, 0)"
proof -
  have "camera_xy (Scene_init w h) = (0, 0)"
    by (simp add: camera_xy_def Scene_init_def)
  then show ?thesis by (simp add: run_xy main_load_xy)
qed

theorem camera_xy_never_changes_witness:
  "camera_xy (run [Event (MOUSEBUTTONDOWN 4), Event (KEYDOWN 98), Frame, Event (MOUSEBUTTONDOWN 5)]
     (fst (main_load (\<lambda>x. None) (\<lambda>x. None) (\<lambda>i. (0, 0, 0)) None (Scene_init 800 600)))) = (0, 0)"
  by (rule camera_xy_never_changes)

section \<open>Mesh loading: a failed load changes nothing\<close>

lemma those_None_iff: "those xs = None \<longleftrightarrow> None \<in> set xs"
  by (induction xs) (auto split: option.splits)

lemma parse_vertex_malformed:
  assumes "list_ex (\<lambda>x. float_of x = None) (drop 1 (py_split line))"
  shows "parse_vertex float_of line vs = Inl ValueError"
proof -
  from assms have "None \<in> set (map float_of (drop 1 (py_split line)))"
    by (auto simp: list_ex_iff image_iff) metis
  then have "those (map float_of (drop 1 (py_split line))) = None"
    by (simp only: those_None_iff)
  then show ?thesis by (simp add: parse_vertex_def)
qed

lemma parse_facet_malformed:
  assumes "list_ex (\<lambda>x. int_of (before_slash x) = None) (drop 1 (py_split line))"
  shows "parse_facet int_of line fs = Inl ValueError"
proof -
  from assms have "None \<in> set (map (\<lambda>x. int_of (before_slash x)) (drop 1 (py_split line)))"
    by (auto simp: list_ex_iff image_iff) metis
  then have "those (map (\<lambda>x. int_of (before_slash x)) (drop 1 (py_split line))) = None"
    by (simp only: those_None_iff)
  then show ?thesis by (simp add: parse_facet_def)
qed

lemma parse_vertex_error: "parse_vertex float_of line vs = Inl e \<Longrightarrow> e = ValueError"
  by (auto simp: parse_vertex_def split: option.splits)

lemma parse_facet_error: "parse_facet int_of line fs = Inl e \<Longrightarrow> e = ValueError"
  by (auto simp: parse_facet_def split: option.splits)

lemma read_lines_malformed:
  assumes "\<exists>line \<in> set lines. malformed_line float_of int_of line"
  shows "read_lines float_of int_of lines vs fs = Inl ValueError"
  using assms
proof (induction lines arbitrary: vs fs)
  case Nil
  then show ?case by simp
next
  case (Cons line rest)
  show ?case
  proof (cases "malformed_line float_of int_of line")
    case True
    then show ?thesis
      by (auto simp: malformed_line_def parse_vertex_malformed parse_facet_malformed
          split: if_splits)
  next
    case False
    with Cons.prems have rest: "\<exists>l \<in> set rest. malformed_line float_of int_of l" by simp
    show ?thesis
    proof (cases "startswith line ''v ''")
      case True
      then show ?thesis
        using Cons.IH [OF rest] parse_vertex_error [of float_of line vs]
        by (cases "parse_vertex float_of line vs") auto
    next
      case nv: False
      show ?thesis
      proof (cases "startswith line ''f ''")
        case True
        then show ?thesis
          using nv Cons.IH [OF rest] parse_facet_error [of int_of line fs]
          by (cases "parse_facet int_of line fs") auto
      next
        case False
        then show ?thesis using nv Cons.IH [OF rest] by simp
      qed
    qed
  qed
qed

text \<open>
  C6: if the mesh file has a malformed vertex or facet line, reading it raises (a
  ValueError) and the load ends before \<open>load_model\<close> is reached: the scene when control
  leaves the load is the scene before it, with its vertices, facets and edges unchanged.
\<close>

theorem failed_load_leaves_scene:
  assumes "\<exists>line \<in> set lines. malformed_line float_of int_of line"
  shows "read float_of int_of (Some lines) = Inl ValueError
       \<and> main_load float_of int_of rnd (Some (Some lines)) s = (s, Some ValueError)
       \<and> vertices (fst (main_load float_of int_of rnd (Some (Some lines)) s)) = vertices s
       \<and> facets (fst (main_load float_of int_of rnd (Some (Some lines)) s)) = facets s
       \<and> edges (fst (main_load float_of int_of rnd (Some (Some lines)) s)) = edges s"
proof -
  have "read float_of int_of (Some lines) = Inl ValueError"
    by (simp add: read_def read_lines_malformed [OF assms] ebind_def)
  then show ?thesis by (simp add: main_load_def)
qed

lemma split_example: "py_split ''v 1 x 1'' = [''v'', ''1'', ''x'', ''1'']"
  by (simp add: py_split_def is_space_def)

theorem failed_load_leaves_scene_witness:
  "main_load (\<lambda>x. if x = ''1'' then Some 1 else None) (\<lambda>x. if x = ''1'' then Some 1 else None)
     (\<lambda>i. (0, 0, 0)) (Some (Some [''v 1 1 1'', ''v 1 x 1''])) (Scene_init 800 600)
   = (Scene_init 800 600, Some ValueError)"
proof -
  have "malformed_line (\<lambda>x. if x = ''1'' then Some 1 else None)
          (\<lambda>x. if x = ''1'' then Some 1 else None) ''v 1 x 1''"
    by (simp add: malformed_line_def startswith_def split_example)
  then have h: "\<exists>line \<in> set [''v 1 1 1'', ''v 1 x 1''].
      malformed_line (\<lambda>x. if x = ''1'' then Some 1 else None)
          (\<lambda>x. if x = ''1'' then Some 1 else None) line"
    by simp
  from failed_load_leaves_scene [OF h] show ?thesis by blast
qed

section \<open>Frame controller: the frame-rate window\<close>

lemma cycle_time_ge: "1 / 60 \<le> cycle_time e"
  by (simp add: cycle_time_def sleep_time_def TARGET_FRAME_TIME_def Let_def)

lemma cycle_time_pos: "0 \<le> cycle_time e"
  using cycle_time_ge [of e] by simp

lemma render_loop_below:
  assumes "FRAME_RATE_TIME g + cycle_time e < 1"
  shows "FPS (render_loop e g) = FPS g
       \<and> FRAME_RATE_TIME (render_loop e g) = FRAME_RATE_TIME g + cycle_time e
       \<and> FRAME_RATE_COUNT (render_loop e g) = FRAME_RATE_COUNT g + 1"
  using assms by (simp add: render_loop_def FRAME_RATE_REFRESH_def Let_def)

lemma render_loop_refresh:
  assumes "1 \<le> FRAME_RATE_TIME g + cycle_time e"
  shows "FPS (render_loop e g) = FRAME_RATE_COUNT g div FRAME_RATE_REFRESH
       \<and> FRAME_RATE_TIME (render_loop e g) = 0
       \<and> FRAME_RATE_COUNT (render_loop e g) = 1"
  using assms by (simp add: render_loop_def FRAME_RATE_REFRESH_def Let_def)

lemma render_loops_append:
  "render_loops (es @ fs) g = render_loops fs (render_loops es g)"
  by (induction es arbitrary: g) simp_all

lemma sum_cycle_nonneg: "0 \<le> sum_list (map cycle_time es)"
  by (induction es) (simp_all add: cycle_time_pos)

lemma render_loops_below:
  assumes "FRAME_RATE_TIME g + sum_list (map cycle_time es) < 1"
  shows "FPS (render_loops es g) = FPS g
       \<and> FRAME_RATE_TIME (render_loops es g) = FRAME_RATE_TIME g + sum_list (map cycle_time es)
       \<and> FRAME_RATE_COUNT (render_loops es g) = FRAME_RATE_COUNT g + int (length es)"
  using assms
proof (induction es arbitrary: g)
  case Nil
  then show ?case by simp
next
  case (Cons e es)
  have "FRAME_RATE_TIME g + cycle_time e < 1"
    using Cons.prems sum_cycle_nonneg [of es] by simp
  note step = render_loop_below [OF this]
  have "FRAME_RATE_TIME (render_loop e g) + sum_list (map cycle_time es) < 1"
    using Cons.prems step by simp
  from Cons.IH [OF this] step show ?case by simp
qed

lemma sum_cycle_take: "sum_list (map cycle_time (take k es)) \<le> sum_list (map cycle_time es)"
proof -
  have "sum_list (map cycle_time es)
      = sum_list (map cycle_time (take k es)) + sum_list (map cycle_time (drop k es))"
    by (metis append_take_drop_id map_append sum_list_append)
  then show ?thesis using sum_cycle_nonneg [of "drop k es"] by simp
qed

lemma cycle_time_zero: "cycle_time 0 = 1 / 60"
  by (simp add: cycle_time_def sleep_time_def TARGET_FRAME_TIME_def Let_def)

lemma sum_cycle_59: "sum_list (map cycle_time (replicate 59 0)) = 59 / 60"
  by (simp add: cycle_time_zero sum_list_replicate)

lemma replicate_60: "replicate 60 (0 :: real) = replicate 59 0 @ [0]"
  by (simp add: replicate_append_same numeral_eq_Suc)

text \<open>
  C7, as stated, fails in the first window after start-up: sixty frames of exactly 1/60 s
  fill one 1-second window, and at its boundary the displayed frame rate becomes 59, because
  the frame counter is incremented after the refresh test and starts at 0.
\<close>

theorem first_window_counterexample:
  "FPS (render_loops (replicate 60 0) initial_globals) = 59
   \<and> FPS (render_loops (replicate 60 0) initial_globals) \<noteq> 60"
proof -
  have t: "FRAME_RATE_TIME initial_globals = 0" "FRAME_RATE_COUNT initial_globals = 0"
    by (simp_all add: initial_globals_def)
  have h1: "FRAME_RATE_TIME initial_globals + sum_list (map cycle_time (replicate 59 0)) < 1"
    by (simp only: t sum_cycle_59)
  note full = render_loops_below [OF h1]
  have "1 \<le> FRAME_RATE_TIME (render_loops (replicate 59 0) initial_globals) + cycle_time 0"
    using full by (simp only: t sum_cycle_59 cycle_time_zero)
  from render_loop_refresh [OF this] full
  have "FPS (render_loops (replicate 59 0 @ [0]) initial_globals) = 59"
    by (simp add: render_loops_append t FRAME_RATE_REFRESH_def)
  then show ?thesis by (simp only: replicate_60) simp
qed

text \<open>
  C7, amended: when the window counter reaches or exceeds the 1-second refresh period, the
  displayed frame rate is set to the frame counter divided by the refresh period, the
  frame counter holding the frames completed before the boundary frame, and both counters
  are reset (the frame counter then counts the boundary frame, so it restarts at 1); the
  displayed rate does not change on any frame before the boundary. In particular, when the
  frame counter holds 60 at the boundary, as for sixty frames of 1/60 s in a window that
  follows a refresh, the displayed frame rate updates to 60, once, at the boundary.
\<close>

theorem frame_rate_window:
  assumes "FRAME_RATE_TIME g + sum_list (map cycle_time es) < 1"
      and "1 \<le> FRAME_RATE_TIME g + sum_list (map cycle_time es) + cycle_time e"
  shows "(\<forall>k \<le> length es. FPS (render_loops (take k es) g) = FPS g)
       \<and> FPS (render_loops (es @ [e]) g)
           = (FRAME_RATE_COUNT g + int (length es)) div FRAME_RATE_REFRESH
       \<and> FRAME_RATE_TIME (render_loops (es @ [e]) g) = 0
       \<and> FRAME_RATE_COUNT (render_loops (es @ [e]) g) = 1
       \<and> (FRAME_RATE_COUNT g + int (length es) = 60 \<longrightarrow> FPS (render_loops (es @ [e]) g) = 60)"
proof -
  have before: "FPS (render_loops (take k es) g) = FPS g" for k
  proof -
    have "FRAME_RATE_TIME g + sum_list (map cycle_time (take k es)) < 1"
      using assms(1) sum_cycle_take [of k es] by simp
    from render_loops_below [OF this] show ?thesis by simp
  qed
  note full = render_loops_below [OF assms(1)]
  have "1 \<le> FRAME_RATE_TIME (render_loops es g) + cycle_time e"
    using assms(2) full by simp
  note last = render_loop_refresh [OF this]
  have fps: "FPS (render_loops (es @ [e]) g)
      = (FRAME_RATE_COUNT g + int (length es)) div FRAME_RATE_REFRESH"
    using last full by (simp add: render_loops_append)
  have sixty: "FPS (render_loops (es @ [e]) g) = 60" if "FRAME_RATE_COUNT g + int (length es) = 60"
    using fps that by (simp add: FRAME_RATE_REFRESH_def)
  show ?thesis
    using before fps last sixty by (simp add: render_loops_append)
qed

theorem frame_rate_window_witness:
  "FPS (render_loops (replicate 59 0 @ [0]) (render_loop 1 initial_globals)) = 60"
proof -
  let ?g = "render_loop 1 initial_globals"
  have g: "FRAME_RATE_TIME ?g = 0" "FRAME_RATE_COUNT ?g = 1"
    by (simp_all add: render_loop_def initial_globals_def cycle_time_def sleep_time_def
        TARGET_FRAME_TIME_def FRAME_RATE_REFRESH_def Let_def)
  note c = cycle_time_zero and s = sum_cycle_59
  have h1: "FRAME_RATE_TIME ?g + sum_list (map cycle_time (replicate 59 0)) < 1"
    by (simp only: g s)
  have h2: "1 \<le> FRAME_RATE_TIME ?g + sum_list (map cycle_time (replicate 59 0)) + cycle_time 0"
    by (simp only: g s c)
  have n: "FRAME_RATE_COUNT ?g + int (length (replicate 59 (0::real))) = 60"
    by (simp add: g)
  from frame_rate_window [OF h1 h2] n show ?thesis by blast
qed

section \<open>Filled mode: which colour is shaded\<close>

lemma py_index_map:
  "py_index (map h f) k = (case py_index f k of Inl e \<Rightarrow> Inl e | Inr x \<Rightarrow> Inr (h x))"
proof -
  have "nat (int (length f) + k) < length f" if "k < 0" "- int (length f) \<le> k"
    using that by linarith
  moreover have "nat k < length f" if "0 \<le> k" "k < int (length f)"
    using that by linarith
  ultimately show ?thesis by (simp add: py_index_def)
qed

lemma facet_ref_recolour: "facet_ref xs (recolour g f) k = facet_ref xs f k"
  by (simp add: facet_ref_def recolour_def py_index_map ebind_def split: sum.splits elem.splits)

lemma fill_facet_recolour: "fill_facet s pl (recolour g f) = fill_facet s pl f"
  by (simp add: fill_facet_def facet_ref_recolour)

lemma fill_facet_facets: "fill_facet (s\<lparr>facets := F\<rparr>) pl f = fill_facet s pl f"
  by (simp add: fill_facet_def)

lemma avg_depth_recolour: "avg_depth depths (recolour g f) = avg_depth depths f"
proof -
  have "map (depth_at depths) (take 3 (recolour g f)) = map (depth_at depths) (take 3 f)"
    by (simp add: recolour_def take_map depth_at_def split: elem.splits)
  then show ?thesis by (simp add: avg_depth_def)
qed

lemma insort_key_map_fun:
  "insort_key f (h x) (map h ys) = map h (insort_key (\<lambda>y. f (h y)) x ys)"
  by (induction ys) simp_all

lemma sort_key_map_fun: "sort_key f (map h xs) = map h (sort_key (\<lambda>y. f (h y)) xs)"
  by (induction xs) (simp_all add: insort_key_map_fun)

lemma zip_map_snd: "zip ks (map h xs) = map (\<lambda>p. (fst p, h (snd p))) (zip ks xs)"
  by (simp add: zip_map2 case_prod_beta)

lemma decorated_sort_map:
  "rev (sort_key fst (rev (zip ks (map h xs))))
     = map (\<lambda>p. (fst p, h (snd p))) (rev (sort_key fst (rev (zip ks xs))))"
proof -
  let ?H = "\<lambda>p. (fst p, h (snd p))"
  have "rev (zip ks (map h xs)) = map ?H (rev (zip ks xs))"
    by (simp only: zip_map_snd rev_map)
  then have "sort_key fst (rev (zip ks (map h xs))) = map ?H (sort_key fst (rev (zip ks xs)))"
    by (simp add: sort_key_map_fun)
  then show ?thesis by (simp only: rev_map)
qed

lemma py_sorted_reverse_map:
  assumes "\<And>x. key (h x) = key x"
  shows "py_sorted_reverse key (map h xs)
       = (case py_sorted_reverse key xs of Inl e \<Rightarrow> Inl e | Inr ys \<Rightarrow> Inr (map h ys))"
proof -
  have k: "map key (map h xs) = map key xs"
    by (simp add: assms)
  show ?thesis
    unfolding py_sorted_reverse_def k
    by (cases "sequence_err (map key xs)")
      (simp_all add: ebind_def decorated_sort_map comp_def)
qed

lemma painters_recolour:
  "painters_algorithm depths (map (recolour g) fs)
     = (case painters_algorithm depths fs of Inl e \<Rightarrow> Inl e
        | Inr ys \<Rightarrow> Inr (map (recolour g) ys))"
  unfolding painters_algorithm_def
  by (rule py_sorted_reverse_map) (rule avg_depth_recolour)

lemma project_all_facets: "project_all (s\<lparr>facets := F\<rparr>) = project_all s"
  by (simp add: project_all_def transform_vertex_def)

lemma auto_rotate_facets: "auto_rotate (s\<lparr>facets := F\<rparr>) = (auto_rotate s)\<lparr>facets := F\<rparr>"
  by (cases "camera_rotation s") (simp add: auto_rotate_def)

lemma auto_rotate_fields:
  "facets (auto_rotate s) = facets s" "filled (auto_rotate s) = filled s"
  "light_source (auto_rotate s) = light_source s" "facet_colour (auto_rotate s) = facet_colour s"
  by (cases "camera_rotation s"; simp add: auto_rotate_def)+

lemma map_fill_facet_recolour:
  "map (fill_facet (t\<lparr>facets := F\<rparr>) pl) (map (recolour g) ys) = map (fill_facet t pl) ys"
  by (induction ys) (simp_all add: fill_facet_facets fill_facet_recolour)

lemma render_model_recolour:
  assumes "filled s"
  shows "snd (render_model (s\<lparr>facets := map (recolour g) (facets s)\<rparr>)) = snd (render_model s)"
proof -
  let ?s = "auto_rotate s"
  let ?F = "map (recolour g) (facets s)"
  have f: "filled ?s" using assms by (simp add: auto_rotate_fields)
  have l: "snd (render_model (s\<lparr>facets := ?F\<rparr>))
      = ebind (project_all ?s) (\<lambda>pd.
          ebind (painters_algorithm (map snd pd) ?F)
            (\<lambda>ordered. sequence_err (map (fill_facet (?s\<lparr>facets := ?F\<rparr>) (map fst pd)) ordered)))"
    using f by (simp add: render_model_def Let_def auto_rotate_facets project_all_facets)
  have r: "snd (render_model s)
      = ebind (project_all ?s) (\<lambda>pd.
          ebind (painters_algorithm (map snd pd) (facets s))
            (\<lambda>ordered. sequence_err (map (fill_facet ?s (map fst pd)) ordered)))"
    using f by (simp add: render_model_def Let_def auto_rotate_fields)
  have "ebind (painters_algorithm ds ?F)
          (\<lambda>ordered. sequence_err (map (fill_facet (?s\<lparr>facets := ?F\<rparr>) pl) ordered))
      = ebind (painters_algorithm ds (facets s))
          (\<lambda>ordered. sequence_err (map (fill_facet ?s pl) ordered))" for ds pl
    by (simp add: painters_recolour ebind_def map_fill_facet_recolour split: sum.splits
        del: map_map)
  then show ?thesis by (simp only: l r)
qed

lemma sequence_err_member:
  "sequence_err xs = Inr ys \<Longrightarrow> y \<in> set ys \<Longrightarrow> Inr y \<in> set xs"
  by (induction xs arbitrary: ys) (auto split: sum.splits)

lemma fill_facet_colour:
  assumes "fill_facet s pl f = Inr d"
  shows "\<exists>a b c col pts. d = Polygon col pts 0
           \<and> gouraud_shading (light_source s) a b c (facet_colour s) = Inr col"
  using assms unfolding fill_facet_def ebind_def
  by (auto split: sum.splits) blast

lemma render_model_filled_colours:
  assumes "filled s" and "snd (render_model s) = Inr ds" and "d \<in> set ds"
  shows "\<exists>a b c col pts. d = Polygon col pts 0
           \<and> gouraud_shading (light_source s) a b c (facet_colour s) = Inr col"
proof -
  let ?s = "auto_rotate s"
  have f: "filled ?s" using assms(1) by (simp add: auto_rotate_fields)
  from assms(2) f obtain pl ordered
    where "sequence_err (map (fill_facet ?s pl) ordered) = Inr ds"
    by (auto simp: render_model_def Let_def ebind_def split: sum.splits)
  from sequence_err_member [OF this assms(3)]
  obtain fc where "fill_facet ?s pl fc = Inr d" by auto
  from fill_facet_colour [OF this] show ?thesis
    by (simp add: auto_rotate_fields)
qed

lemma red_scene_fields:
  "filled red_facet_scene" "rotating red_facet_scene = False"
  "camera_rotation red_facet_scene = (0, 0, 0)" "camera_position red_facet_scene = (0, 0, -10)"
  "camera_distortion red_facet_scene = 512"
  "centre_x red_facet_scene = 400" "centre_y red_facet_scene = 300"
  "light_source red_facet_scene = (7 / 10, 7 / 10, - (7 / 10))"
  "facet_colour red_facet_scene = (100, 255, 100)"
  "vertices red_facet_scene = [[0, 0, 0], [0, 0, 1], [1, 1, 0]]"
  "facets red_facet_scene = [[Idx 0, Idx 1, Idx 2, Colour (255, 0, 0)]]"
  by (simp_all add: red_facet_scene_def Scene_init_def)

lemma red_scene_transform:
  "transform_vertex red_facet_scene (0, 0, 0) = ((400, 300), 10)"
  "transform_vertex red_facet_scene (0, 0, 1) = ((400, 300), 9)"
  "transform_vertex red_facet_scene (1, 1, 0) = ((348, 351), 10)"
  by (simp_all add: transform_vertex_def red_scene_fields rotate_def translate_def
      guard_depth_def py_int_of_float_def Let_def)

lemma red_scene_project:
  "project_all red_facet_scene = Inr [((400, 300), 10), ((400, 300), 9), ((348, 351), 10)]"
  by (simp add: project_all_def red_scene_fields vertex_coords_def ebind_def
      red_scene_transform)

lemma red_scene_sorted:
  "painters_algorithm [10, 9, 10] [[Idx 0, Idx 1, Idx 2, Colour (255, 0, 0)]]
     = Inr [[Idx 0, Idx 1, Idx 2, Colour (255, 0, 0)]]"
  by (simp add: painters_algorithm_def py_sorted_reverse_def avg_depth_def depth_at_def
      py_index_def ebind_def)

lemma red_scene_angle:
  "light_angle (7 / 10, 7 / 10, - (7 / 10)) (0, 0, 0) (0, 0, 1) (1, 1, 0) = 0"
  by (simp add: light_angle_def vsub_def vlength_def vdiv_def cross_def dot_def)

lemma red_scene_shade:
  "gouraud_shading (7 / 10, 7 / 10, - (7 / 10)) (0, 0, 0) (0, 0, 1) (1, 1, 0) (100, 255, 100)
     = Inr (50, 127, 50)"
  "gouraud_shading (7 / 10, 7 / 10, - (7 / 10)) (0, 0, 0) (0, 0, 1) (1, 1, 0) (255, 0, 0)
     = Inr (127, 0, 0)"
  by (simp_all add: gouraud_shading_def red_scene_angle intensity_zero vlength_def vsub_def)

lemma red_scene_fill:
  "fill_facet red_facet_scene [(400, 300), (400, 300), (348, 351)]
     [Idx 0, Idx 1, Idx 2, Colour (255, 0, 0)]
   = Inr (Polygon (50, 127, 50) [(400, 300), (400, 300), (348, 351)] 0)"
  by (simp add: fill_facet_def facet_ref_def py_index_def ebind_def red_scene_fields
      vertex_coords_def red_scene_shade)

text \<open>
  C9, as stated, fails: in the filled scene whose only facet carries the colour (255, 0, 0),
  the polygon is drawn in (50, 127, 50), the shade of the scene's facet colour
  (100, 255, 100), whereas the shade of the facet's own colour would be (127, 0, 0).
\<close>

theorem own_colour_counterexample:
  "snd (render_model red_facet_scene)
     = Inr [Polygon (50, 127, 50) [(400, 300), (400, 300), (348, 351)] 0]
   \<and> gouraud_shading (light_source red_facet_scene) (0, 0, 0) (0, 0, 1) (1, 1, 0) (255, 0, 0)
     = Inr (127, 0, 0)"
proof -
  have "auto_rotate red_facet_scene = red_facet_scene"
    by (simp add: auto_rotate_def red_scene_fields)
  then have "snd (render_model red_facet_scene)
     = Inr [Polygon (50, 127, 50) [(400, 300), (400, 300), (348, 351)] 0]"
    by (simp add: render_model_def Let_def red_scene_project ebind_def red_scene_fields
        red_scene_sorted red_scene_fill)
  then show ?thesis by (simp add: red_scene_fields red_scene_shade)
qed

text \<open>
  C9, amended: in filled mode, for every facet, whether it carries a base colour or not,
  the colour passed to the shader, and hence the colour drawn, is computed from the
  scene-wide facet colour; the colour a facet carries is never read, so replacing it
  changes nothing in what is drawn.
\<close>

theorem filled_colour_is_scene_colour:
  assumes "filled s"
  shows "snd (render_model (s\<lparr>facets := map (recolour g) (facets s)\<rparr>)) = snd (render_model s)
       \<and> (\<forall>ds. snd (render_model s) = Inr ds \<longrightarrow>
             (\<forall>d \<in> set ds. \<exists>a b c col pts. d = Polygon col pts 0
                \<and> gouraud_shading (light_source s) a b c (facet_colour s) = Inr col))"
  using render_model_recolour [OF assms] render_model_filled_colours [OF assms] by blast

theorem filled_colour_is_scene_colour_witness:
  "snd (render_model (red_facet_scene\<lparr>facets := [[Idx 0, Idx 1, Idx 2, Colour (0, 0, 255)]]\<rparr>))
     = snd (render_model red_facet_scene)"
proof -
  have m: "map (recolour (\<lambda>c. (0, 0, 255))) (facets red_facet_scene)
      = [[Idx 0, Idx 1, Idx 2, Colour (0, 0, 255)]]"
    by (simp add: red_scene_fields recolour_def)
  have f: "filled red_facet_scene" by (rule red_scene_fields)
  from filled_colour_is_scene_colour [OF f, of "\<lambda>c. (0, 0, 255)"] show ?thesis
    by (simp only: m)
qed

end
